theory Spec2Isabelle
  imports Main "HOL-Library.Word"
begin

section \<open>The secure-channel session (libcaf\_openssl/src/session.cpp)\<close>

text \<open>
  The OpenSSL library is not part of the repository. It enters the model as a record of
  the three entry points the session calls, over an arbitrary connection state
  \<open>'ssl\<close>. \<open>SSL_read\<close> and \<open>SSL_write\<close> take the buffer address and the length
  narrowed to the C \<open>int\<close> of their prototypes, and return the C \<open>int\<close> result with
  the new connection state. \<open>SSL_get_error\<close> classifies a result.
\<close>

type_synonym addr = nat

datatype ssl_error =
    SSL_ERROR_WANT_READ
  | SSL_ERROR_WANT_WRITE
  | SSL_ERROR_ZERO_RETURN
  | SSL_ERROR_SYSCALL
  | SSL_ERROR_OTHER

record 'ssl openssl =
  SSL_read :: "'ssl \<Rightarrow> addr \<Rightarrow> 32 word \<Rightarrow> 32 word \<times> 'ssl"
  SSL_write :: "'ssl \<Rightarrow> addr \<Rightarrow> 32 word \<Rightarrow> 32 word \<times> 'ssl"
  SSL_get_error :: "'ssl \<Rightarrow> 32 word \<Rightarrow> ssl_error"

text \<open>
  The session object. Only the member \<open>ssl_\<close> (here \<open>ssl_m\<close>) takes part in
  reading and writing.
\<close>

record 'ssl session =
  ssl_m :: 'ssl

text \<open>
  \<open>session::handle_ssl_result\<close>: the switch over \<open>SSL_get_error(ssl_, ret)\<close>, with
  its cases in the order of the source.
\<close>

definition handle_ssl_result :: "'ssl openssl \<Rightarrow> 'ssl session \<Rightarrow> 32 word \<Rightarrow> bool" where
  "handle_ssl_result lib s ret =
     (case SSL_get_error lib (ssl_m s) ret of
        SSL_ERROR_WANT_READ \<Rightarrow> True
      | SSL_ERROR_WANT_WRITE \<Rightarrow> True
      | SSL_ERROR_ZERO_RETURN \<Rightarrow> False
      | SSL_ERROR_SYSCALL \<Rightarrow> False
      | SSL_ERROR_OTHER \<Rightarrow> False)"

text \<open>
  \<open>session::read_some(size_t& result, native_socket, void* buf, size_t len)\<close>. The
  reference parameter \<open>result\<close> is passed in and returned: the value is the triple of
  the returned \<open>bool\<close>, the final \<open>result\<close> and the session afterwards.
  \<open>return 0\<close> in a function returning \<open>bool\<close> is \<open>false\<close>. The length is narrowed
  from \<open>size_t\<close> to \<open>int\<close> at the call, and a positive \<open>int\<close> is widened to
  \<open>size_t\<close> on assignment.
\<close>

definition read_some ::
  "'ssl openssl \<Rightarrow> 'ssl session \<Rightarrow> 64 word \<Rightarrow> addr \<Rightarrow> 64 word \<Rightarrow> bool \<times> 64 word \<times> 'ssl session"
where
  "read_some lib s result buf len =
     (if len = 0 then (False, result, s)
      else
        let (ret, ssl') = SSL_read lib (ssl_m s) buf (ucast len);
            s' = s\<lparr>ssl_m := ssl'\<rparr>
        in if 0 <s ret then (True, scast ret, s')
           else (handle_ssl_result lib s' ret, 0, s'))"

text \<open>\<open>session::write_some\<close>, of the same shape, except for the zero-length case.\<close>

definition write_some ::
  "'ssl openssl \<Rightarrow> 'ssl session \<Rightarrow> 64 word \<Rightarrow> addr \<Rightarrow> 64 word \<Rightarrow> bool \<times> 64 word \<times> 'ssl session"
where
  "write_some lib s result buf len =
     (if len = 0 then (True, result, s)
      else
        let (ret, ssl') = SSL_write lib (ssl_m s) buf (ucast len);
            s' = s\<lparr>ssl_m := ssl'\<rparr>
        in if 0 <s ret then (True, scast ret, s')
           else (handle_ssl_result lib s' ret, 0, s'))"

subsection \<open>A scripted connection, for concrete evaluation\<close>

text \<open>
  A connection whose future is written down: \<open>pending\<close> lists what the next calls
  return, each with the error class \<open>SSL_get_error\<close> reports for it; \<open>io_calls\<close>
  counts the reads and writes attempted; \<open>last_error\<close> is the class of the latest call.
  A call on an exhausted script fails as a closed socket does.
\<close>

record scripted =
  pending :: "(32 word \<times> ssl_error) list"
  io_calls :: nat
  last_error :: ssl_error

definition scripted_io :: "scripted \<Rightarrow> addr \<Rightarrow> 32 word \<Rightarrow> 32 word \<times> scripted" where
  "scripted_io c buf n =
     (case pending c of
        [] \<Rightarrow> (- 1, c\<lparr>io_calls := Suc (io_calls c), last_error := SSL_ERROR_SYSCALL\<rparr>)
      | (r, e) # rest \<Rightarrow>
          (r, c\<lparr>pending := rest, io_calls := Suc (io_calls c), last_error := e\<rparr>))"

definition scripted_lib :: "scripted openssl" where
  "scripted_lib =
     \<lparr>SSL_read = scripted_io, SSL_write = scripted_io,
      SSL_get_error = (\<lambda>c ret. last_error c)\<rparr>"

text \<open>
  The same connection behind a library whose writes always succeed in full, while its
  reads follow the script.
\<close>

definition write_ready_lib :: "scripted openssl" where
  "write_ready_lib =
     \<lparr>SSL_read = scripted_io,
      SSL_write = (\<lambda>c buf n. (n, c\<lparr>io_calls := Suc (io_calls c)\<rparr>)),
      SSL_get_error = (\<lambda>c ret. last_error c)\<rparr>"

definition scripted_session :: "(32 word \<times> ssl_error) list \<Rightarrow> scripted session" where
  "scripted_session rs =
     \<lparr>ssl_m = \<lparr>pending = rs, io_calls = 0, last_error = SSL_ERROR_OTHER\<rparr>\<rparr>"

section \<open>Type-erased tuples (libcaf\_core/caf/type\_erased\_tuple.hpp)\<close>

subsection \<open>Memory\<close>

text \<open>
  Tuple elements live in memory that the tuple may only refer to (a view refers to
  variables of its caller), so element storage is an explicit store: \<open>cells\<close> maps the
  address of every live object to its value, and \<open>brk\<close> is the address the next
  allocation returns. An address outside \<open>dom cells\<close> is a destroyed (or never
  created) object; to read or write one is undefined behaviour, which the model makes
  the result \<open>None\<close>.
\<close>

record 'v memory =
  cells :: "addr \<rightharpoonup> 'v"
  brk :: addr

definition mem_read :: "'v memory \<Rightarrow> addr \<Rightarrow> 'v option" where
  "mem_read m a = cells m a"

definition mem_write :: "'v memory \<Rightarrow> addr \<Rightarrow> 'v \<Rightarrow> 'v memory option" where
  "mem_write m a x = (if a \<in> dom (cells m) then Some (m\<lparr>cells := (cells m)(a \<mapsto> x)\<rparr>) else None)"

definition mem_destroy :: "'v memory \<Rightarrow> addr \<Rightarrow> 'v memory" where
  "mem_destroy m a = m\<lparr>cells := (cells m)(a := None)\<rparr>"

definition mem_new :: "'v memory \<Rightarrow> 'v \<Rightarrow> addr \<times> 'v memory" where
  "mem_new m x = (brk m, \<lparr>cells = (cells m)(brk m \<mapsto> x), brk = Suc (brk m)\<rparr>)"

text \<open>The allocator's invariant: every live object lies below \<open>brk\<close>.\<close>

definition mem_ok :: "'v memory \<Rightarrow> bool" where
  "mem_ok m \<longleftrightarrow> (\<forall>a. a \<in> dom (cells m) \<longrightarrow> a < brk m)"

subsection \<open>Runtime type identity, serializers\<close>

text \<open>
  \<open>rtti_pair\<close> is \<open>std::pair<uint16_t, const std::type_info*>\<close>: the type number
  and the address of the \<open>std::type_info\<close> object. A serializer is the sequence of
  values written to it so far, a deserializer the sequence of values still to be read.
\<close>

type_synonym rtti_pair = "16 word \<times> addr"
type_synonym 'v serializer = "'v list"
type_synonym 'v deserializer = "'v list"

subsection \<open>The abstract class \<open>type_erased_tuple\<close>\<close>

text \<open>
  The pure virtual members (and the virtual \<open>shared\<close>) are the fields of a record; a
  concrete tuple class is a value of it. An accessor at a position where the
  implementation defines no result returns \<open>None\<close>. \<open>size\<close> is \<open>size_te\<close> here,
  and the per-position overloads of \<open>load\<close> and \<open>save\<close> are \<open>load_pos\<close> and
  \<open>save_pos\<close>. \<open>stringify\<close> and \<open>copy\<close> are used by no member modelled below and
  are left out of the record.
\<close>

record 'v type_erased_tuple =
  get_mutable :: "nat \<Rightarrow> addr option"
  load_pos :: "nat \<Rightarrow> 'v deserializer \<Rightarrow> 'v memory \<Rightarrow> ('v deserializer \<times> 'v memory) option"
  size_te :: nat
  type_token :: "32 word"
  type :: "nat \<Rightarrow> rtti_pair option"
  get :: "nat \<Rightarrow> addr option"
  save_pos :: "nat \<Rightarrow> 'v memory \<Rightarrow> 'v serializer \<Rightarrow> 'v serializer option"
  shared :: bool

text \<open>\<open>type_nr(pos)\<close>: \<open>type(pos).first\<close>.\<close>

definition type_nr :: "'v type_erased_tuple \<Rightarrow> nat \<Rightarrow> 16 word option" where
  "type_nr t pos = map_option fst (type t pos)"

text \<open>
  Modelled from the spec: \<open>type_erased_tuple::matches(pos, n, p)\<close>, declared in the
  header and defined in a source file that is not among the sources. The spec: true iff
  both the integer and the token agree with the element stored at \<open>pos\<close>. Where
  \<open>type(pos)\<close> has no defined result there is nothing to agree with.
\<close>

definition matches :: "'v type_erased_tuple \<Rightarrow> nat \<Rightarrow> 16 word \<Rightarrow> addr \<Rightarrow> bool" where
  "matches t pos n p =
     (case type t pos of None \<Rightarrow> False | Some tp \<Rightarrow> fst tp = n \<and> snd tp = p)"

text \<open>The overload \<open>matches(pos, rtti)\<close> of the header.\<close>

definition matches_rtti :: "'v type_erased_tuple \<Rightarrow> nat \<Rightarrow> rtti_pair \<Rightarrow> bool" where
  "matches_rtti t pos rtti = matches t pos (fst rtti) (snd rtti)"

text \<open>
  Modelled from the spec: \<open>detail::match_element\<close> applied to the meta element of a
  static type (caf/detail/try\_match.hpp is not among the sources). The spec: compare
  the position's runtime type against the static type. A static type is given here by
  the pair the type identity registry assigns to it.
\<close>

definition match_element :: "rtti_pair \<Rightarrow> 'v type_erased_tuple \<Rightarrow> nat \<Rightarrow> bool" where
  "match_element x t pos = matches_rtti t pos x"

text \<open>
  \<open>match_elements<Ts...>()\<close>. The parameter \<open>me\<close> is \<open>detail::match_element\<close> on
  the meta element of a static type, \<open>arr\<close> the static type list. The loop carries the
  list of the positions it has passed to \<open>me\<close>, so that what was inspected, and in
  which order, can be stated.
\<close>

function match_elements_loop ::
  "('ty \<Rightarrow> 'v type_erased_tuple \<Rightarrow> nat \<Rightarrow> bool) \<Rightarrow> 'ty list \<Rightarrow> 'v type_erased_tuple \<Rightarrow> nat \<Rightarrow> nat list
     \<Rightarrow> bool \<times> nat list"
where
  "match_elements_loop me arr t i seen =
     (if i < length arr
      then (if \<not> me (arr ! i) t i then (False, seen @ [i])
            else match_elements_loop me arr t (i + 1) (seen @ [i]))
      else (True, seen))"
  by pat_completeness auto
termination
  by (relation "measure (\<lambda>(me, arr, t, i, seen). length arr - i)") auto

definition match_elements_seen ::
  "('ty \<Rightarrow> 'v type_erased_tuple \<Rightarrow> nat \<Rightarrow> bool) \<Rightarrow> 'ty list \<Rightarrow> 'v type_erased_tuple \<Rightarrow> bool \<times> nat list"
where
  "match_elements_seen me Ts t =
     (if length Ts \<noteq> size_te t then (False, [])
      else match_elements_loop me Ts t 0 [])"

definition match_elements ::
  "('ty \<Rightarrow> 'v type_erased_tuple \<Rightarrow> nat \<Rightarrow> bool) \<Rightarrow> 'ty list \<Rightarrow> 'v type_erased_tuple \<Rightarrow> bool"
where
  "match_elements me Ts t = fst (match_elements_seen me Ts t)"

subsection \<open>\<open>apply\<close>\<close>

text \<open>
  Modelled from the spec: \<open>detail::pseudo_tuple\<close> (caf/detail/pseudo\_tuple.hpp is
  not among the sources). The spec: a synthetic positional view over the tuple's raw
  element storage, const-qualified throughout if \<open>shared()\<close> is true. It is the
  flag it is constructed with and its array of element pointers, one slot per static
  type, not initialised by the constructor.
\<close>

record pseudo_tuple =
  shared_access :: bool
  data :: "addr option list"

text \<open>
  A callable: its parameter types, and what a call does. A call receives the pseudo
  tuple whose slots are its arguments and may change memory; it returns its result.
\<close>

record ('ty, 'v, 'r) callable =
  arg_types :: "'ty list"
  call :: "pseudo_tuple \<Rightarrow> 'v memory \<Rightarrow> 'r \<times> 'v memory"

text \<open>
  Modelled from the spec: \<open>detail::apply_args\<close> (caf/detail/apply\_args.hpp is not
  among the sources). The spec: invoke the callable with the view unpacked as arguments.
\<close>

definition apply_args ::
  "('ty, 'v, 'r) callable \<Rightarrow> pseudo_tuple \<Rightarrow> 'v memory \<Rightarrow> 'r \<times> 'v memory"
where
  "apply_args f xs m = call f xs m"

text \<open>The loop \<open>for (size_t i = 0; i < size(); ++i) xs[i] = get(i)\<close>.\<close>

function fill_loop :: "'v type_erased_tuple \<Rightarrow> nat \<Rightarrow> addr option list \<Rightarrow> addr option list" where
  "fill_loop t i xs = (if i < size_te t then fill_loop t (i + 1) (xs[i := get t i]) else xs)"
  by pat_completeness auto
termination
  by (relation "measure (\<lambda>(t, i, xs). size_te t - i)") auto

text \<open>
  The two private overloads of \<open>apply\<close>: for a callable that returns a value and for
  one that returns \<open>void\<close>. \<open>optional<R>\<close> is \<open>'r option\<close> with \<open>none\<close> as
  \<open>None\<close>; \<open>optional<void>\<close> is \<open>unit option\<close>, and the value \<open>unit\<close> is
  \<open>Some ()\<close>. The value is the returned optional, the memory afterwards, and the list
  of the calls made, each call given by the pseudo tuple it received.
\<close>

definition apply_R ::
  "('ty \<Rightarrow> 'v type_erased_tuple \<Rightarrow> nat \<Rightarrow> bool) \<Rightarrow> 'v type_erased_tuple \<Rightarrow> ('ty, 'v, 'r) callable
     \<Rightarrow> 'v memory \<Rightarrow> 'r option \<times> 'v memory \<times> pseudo_tuple list"
where
  "apply_R me t f m =
     (if \<not> match_elements me (arg_types f) t then (None, m, [])
      else
        let xs = \<lparr>shared_access = shared t,
                  data = fill_loop t 0 (replicate (length (arg_types f)) None)\<rparr>;
            (r, m') = apply_args f xs m
        in (Some r, m', [xs]))"

definition apply_void ::
  "('ty \<Rightarrow> 'v type_erased_tuple \<Rightarrow> nat \<Rightarrow> bool) \<Rightarrow> 'v type_erased_tuple \<Rightarrow> ('ty, 'v, unit) callable
     \<Rightarrow> 'v memory \<Rightarrow> unit option \<times> 'v memory \<times> pseudo_tuple list"
where
  "apply_void me t f m =
     (if \<not> match_elements me (arg_types f) t then (None, m, [])
      else
        let xs = \<lparr>shared_access = shared t,
                  data = fill_loop t 0 (replicate (length (arg_types f)) None)\<rparr>;
            (u, m') = apply_args f xs m
        in (Some (), m', [xs]))"

subsection \<open>Aggregate \<open>save\<close> and \<open>load\<close>\<close>

text \<open>
  Modelled from the spec: \<open>type_erased_tuple::save(sink)\<close> and
  \<open>type_erased_tuple::load(source)\<close>, declared in the header and defined in a source
  file that is not among the sources. The spec: per-element delegation, invoked
  strictly in ascending position order, with no additional framing; a per-element
  failure aborts the whole operation at once.
\<close>

function save_from ::
  "'v type_erased_tuple \<Rightarrow> nat \<Rightarrow> 'v memory \<Rightarrow> 'v serializer \<Rightarrow> 'v serializer option"
where
  "save_from t i m sink =
     (if i < size_te t
      then (case save_pos t i m sink of
              None \<Rightarrow> None
            | Some sink' \<Rightarrow> save_from t (i + 1) m sink')
      else Some sink)"
  by pat_completeness auto
termination
  by (relation "measure (\<lambda>(t, i, m, sink). size_te t - i)") auto

definition save :: "'v type_erased_tuple \<Rightarrow> 'v memory \<Rightarrow> 'v serializer \<Rightarrow> 'v serializer option" where
  "save t m sink = save_from t 0 m sink"

function load_from ::
  "'v type_erased_tuple \<Rightarrow> nat \<Rightarrow> 'v deserializer \<Rightarrow> 'v memory
     \<Rightarrow> ('v deserializer \<times> 'v memory) option"
where
  "load_from t i source m =
     (if i < size_te t
      then (case load_pos t i source m of
              None \<Rightarrow> None
            | Some (source', m') \<Rightarrow> load_from t (i + 1) source' m')
      else Some (source, m))"
  by pat_completeness auto
termination
  by (relation "measure (\<lambda>(t, i, source, m). size_te t - i)") auto

definition load ::
  "'v type_erased_tuple \<Rightarrow> 'v deserializer \<Rightarrow> 'v memory \<Rightarrow> ('v deserializer \<times> 'v memory) option"
where
  "load t source m = load_from t 0 source m"

text \<open>
  The composition the spec speaks of, written independently of the loops: the
  per-position operation at the positions of a list, from left to right, stopping at
  the first failure.
\<close>

fun compose_save ::
  "'v type_erased_tuple \<Rightarrow> nat list \<Rightarrow> 'v memory \<Rightarrow> 'v serializer \<Rightarrow> 'v serializer option"
where
  "compose_save t [] m sink = Some sink"
| "compose_save t (pos # ps) m sink = Option.bind (save_pos t pos m sink) (compose_save t ps m)"

fun compose_load ::
  "'v type_erased_tuple \<Rightarrow> nat list \<Rightarrow> 'v deserializer \<Rightarrow> 'v memory
     \<Rightarrow> ('v deserializer \<times> 'v memory) option"
where
  "compose_load t [] source m = Some (source, m)"
| "compose_load t (pos # ps) source m =
     Option.bind (load_pos t pos source m) (\<lambda>(source', m'). compose_load t ps source' m')"

subsection \<open>Type-erased values\<close>

text \<open>
  Modelled from the spec: \<open>type_erased_value_impl\<close> (caf/type\_erased\_value.hpp is
  not among the sources). A wrapper has the static type of its payload (\<open>vtype\<close>) and
  the address of the payload (\<open>ref\<close>): for the
  \<open>type_erased_value_impl<std::reference_wrapper<T>>\<close> of a view that is the address
  of the caller's variable, for an owning value the address of its own storage. The
  spec: a value exposes get and get-mutable, its type identity, copy, save and load;
  \<open>copy\<close> produces a new, independently owned value; \<open>save\<close> is
  \<open>sink.write(element)\<close> and \<open>load\<close> is \<open>source.read(element)\<close>. The parameter
  \<open>rtti\<close> is the type identity registry.
\<close>

record 'ty type_erased_value =
  vtype :: 'ty
  ref :: addr

definition tev_get :: "'ty type_erased_value \<Rightarrow> addr" where
  "tev_get x = ref x"

definition tev_get_mutable :: "'ty type_erased_value \<Rightarrow> addr" where
  "tev_get_mutable x = ref x"

definition tev_type :: "('ty \<Rightarrow> rtti_pair) \<Rightarrow> 'ty type_erased_value \<Rightarrow> rtti_pair" where
  "tev_type rtti x = rtti (vtype x)"

definition tev_copy ::
  "'ty type_erased_value \<Rightarrow> 'v memory \<Rightarrow> ('ty type_erased_value \<times> 'v memory) option"
where
  "tev_copy x m =
     (case mem_read m (ref x) of
        None \<Rightarrow> None
      | Some v \<Rightarrow> (let (a, m') = mem_new m v in Some (\<lparr>vtype = vtype x, ref = a\<rparr>, m')))"

definition tev_save :: "'ty type_erased_value \<Rightarrow> 'v memory \<Rightarrow> 'v serializer \<Rightarrow> 'v serializer option" where
  "tev_save x m sink =
     (case mem_read m (ref x) of None \<Rightarrow> None | Some v \<Rightarrow> Some (sink @ [v]))"

definition tev_load ::
  "'ty type_erased_value \<Rightarrow> 'v deserializer \<Rightarrow> 'v memory \<Rightarrow> ('v deserializer \<times> 'v memory) option"
where
  "tev_load x source m =
     (case source of
        [] \<Rightarrow> None
      | v # source' \<Rightarrow>
          (case mem_write m (ref x) v of None \<Rightarrow> None | Some m' \<Rightarrow> Some (source', m')))"

subsection \<open>The class \<open>type_erased_tuple_view\<close>\<close>

text \<open>
  The members \<open>xs_\<close> and \<open>ptrs_\<close> (here \<open>xs_m\<close> and \<open>ptrs_m\<close>). \<open>xs_m\<close> is
  the tuple of wrappers, one per static type, so \<open>sizeof...(Ts)\<close> is its length and
  \<open>Ts\<close> the list of its \<open>vtype\<close>s. \<open>ptrs_m\<close> is the array of
  \<open>sizeof...(Ts) == 0 ? 1 : sizeof...(Ts)\<close> pointers: a slot is \<open>None\<close> while it is
  not initialised, and \<open>Some P\<close> when it holds \<open>&std::get<P>(xs_)\<close>, the address
  of the \<open>P\<close>-th wrapper of this very view.
\<close>

record 'ty type_erased_tuple_view =
  xs_m :: "'ty type_erased_value list"
  ptrs_m :: "nat option list"

definition Ts :: "'ty type_erased_tuple_view \<Rightarrow> 'ty list" where
  "Ts v = map vtype (xs_m v)"

text \<open>
  The recursion \<open>init(num_token<P>, num_token<N>)\<close>. It starts at \<open>P = 0\<close>, so
  \<open>P \<le> N\<close> throughout and the overload that ends it, \<open>P = N\<close>, is the case
  \<open>N \<le> P\<close>.
\<close>

function init_from :: "nat \<Rightarrow> nat \<Rightarrow> 'ty type_erased_tuple_view \<Rightarrow> 'ty type_erased_tuple_view" where
  "init_from P N v =
     (if N \<le> P then v
      else init_from (P + 1) N (v\<lparr>ptrs_m := (ptrs_m v)[P := Some P]\<rparr>))"
  by pat_completeness auto
termination
  by (relation "measure (\<lambda>(P, N, v). N - P)") auto

definition init :: "'ty type_erased_tuple_view \<Rightarrow> 'ty type_erased_tuple_view" where
  "init v = init_from 0 (length (xs_m v)) v"

text \<open>
  The constructor \<open>type_erased_tuple_view(Ts&... xs)\<close>: each argument is a variable of
  the caller, given by its static type and its address; \<open>xs_(xs...)\<close> wraps a
  reference to each.
\<close>

definition view_ctor :: "('ty \<times> addr) list \<Rightarrow> 'ty type_erased_tuple_view" where
  "view_ctor vars =
     init \<lparr>xs_m = map (\<lambda>(T, a). \<lparr>vtype = T, ref = a\<rparr>) vars,
           ptrs_m = replicate (if length vars = 0 then 1 else length vars) None\<rparr>"

text \<open>
  The copy constructor: \<open>xs_(other.xs_)\<close> copies the wrappers, that is the
  references they hold; \<open>ptrs_\<close> is not copied but rebuilt by \<open>init()\<close>.
\<close>

definition view_copy_ctor :: "'ty type_erased_tuple_view \<Rightarrow> 'ty type_erased_tuple_view" where
  "view_copy_ctor other =
     init \<lparr>xs_m = xs_m other,
           ptrs_m = replicate (if length (xs_m other) = 0 then 1 else length (xs_m other)) None\<rparr>"

text \<open>
  \<open>ptrs_[pos]\<close> followed to the wrapper it points to. The source indexes the array
  unchecked: outside the array, or at a slot that was never initialised, the behaviour
  is undefined, here \<open>None\<close>.
\<close>

definition ptr_at :: "'ty type_erased_tuple_view \<Rightarrow> nat \<Rightarrow> 'ty type_erased_value option" where
  "ptr_at v pos =
     (if pos < length (ptrs_m v)
      then (case ptrs_m v ! pos of
              None \<Rightarrow> None
            | Some P \<Rightarrow> if P < length (xs_m v) then Some (xs_m v ! P) else None)
      else None)"

text \<open>The overridden members, each forwarding to the wrapper at \<open>ptrs_[pos]\<close>.\<close>

definition view_get_mutable :: "'ty type_erased_tuple_view \<Rightarrow> nat \<Rightarrow> addr option" where
  "view_get_mutable v pos = map_option tev_get_mutable (ptr_at v pos)"

definition view_load ::
  "'ty type_erased_tuple_view \<Rightarrow> nat \<Rightarrow> 'v deserializer \<Rightarrow> 'v memory
     \<Rightarrow> ('v deserializer \<times> 'v memory) option"
where
  "view_load v pos source m =
     (case ptr_at v pos of None \<Rightarrow> None | Some x \<Rightarrow> tev_load x source m)"

definition view_size :: "'ty type_erased_tuple_view \<Rightarrow> nat" where
  "view_size v = length (xs_m v)"

text \<open>
  \<open>type_token()\<close> returns \<open>make_type_token<Ts...>()\<close>. The function
  \<open>make_type_token\<close> (caf/type\_nr.hpp) is not among the sources; it is the parameter
  \<open>mk\<close>, a function of the static type list.
\<close>

definition view_type_token :: "('ty list \<Rightarrow> 32 word) \<Rightarrow> 'ty type_erased_tuple_view \<Rightarrow> 32 word" where
  "view_type_token mk v = mk (Ts v)"

definition view_type :: "('ty \<Rightarrow> rtti_pair) \<Rightarrow> 'ty type_erased_tuple_view \<Rightarrow> nat \<Rightarrow> rtti_pair option" where
  "view_type rtti v pos = map_option (tev_type rtti) (ptr_at v pos)"

definition view_get :: "'ty type_erased_tuple_view \<Rightarrow> nat \<Rightarrow> addr option" where
  "view_get v pos = map_option tev_get (ptr_at v pos)"

definition view_copy ::
  "'ty type_erased_tuple_view \<Rightarrow> nat \<Rightarrow> 'v memory \<Rightarrow> ('ty type_erased_value \<times> 'v memory) option"
where
  "view_copy v pos m = (case ptr_at v pos of None \<Rightarrow> None | Some x \<Rightarrow> tev_copy x m)"

definition view_save ::
  "'ty type_erased_tuple_view \<Rightarrow> nat \<Rightarrow> 'v memory \<Rightarrow> 'v serializer \<Rightarrow> 'v serializer option"
where
  "view_save v pos m sink = (case ptr_at v pos of None \<Rightarrow> None | Some x \<Rightarrow> tev_save x m sink)"

text \<open>
  A view as a \<open>type_erased_tuple\<close>: the record of its overriding members. The view
  does not override \<open>shared\<close>, whose default implementation returns \<open>false\<close>.
\<close>

definition as_tuple ::
  "('ty \<Rightarrow> rtti_pair) \<Rightarrow> ('ty list \<Rightarrow> 32 word) \<Rightarrow> 'ty type_erased_tuple_view \<Rightarrow> 'v type_erased_tuple"
where
  "as_tuple rtti mk v =
     \<lparr>get_mutable = view_get_mutable v,
      load_pos = view_load v,
      size_te = view_size v,
      type_token = view_type_token mk v,
      type = view_type rtti v,
      get = view_get v,
      save_pos = view_save v,
      shared = False\<rparr>"

text \<open>
  The state in which the constructors leave a view: slot \<open>P\<close> of \<open>ptrs_\<close> points
  to wrapper \<open>P\<close>, for every position, and the one slot of an empty view is not
  initialised.
\<close>

definition view_ok :: "'ty type_erased_tuple_view \<Rightarrow> bool" where
  "view_ok v \<longleftrightarrow>
     ptrs_m v = map Some [0..<length (xs_m v)] @ (if length (xs_m v) = 0 then [None] else [])"

subsection \<open>Typed access\<close>

text \<open>
  \<open>get_as<T>(pos)\<close> is \<open>*reinterpret_cast<const T*>(get(pos))\<close>: the value read
  through the pointer. \<open>get_mutable_as<T>(pos)\<close> returns the reference
  \<open>*reinterpret_cast<T*>(get_mutable(pos))\<close>; \<open>assign_mutable_as\<close> is an
  assignment through that reference.
\<close>

definition get_as :: "'v type_erased_tuple \<Rightarrow> nat \<Rightarrow> 'v memory \<Rightarrow> 'v option" where
  "get_as t pos m = Option.bind (get t pos) (mem_read m)"

definition assign_mutable_as :: "'v type_erased_tuple \<Rightarrow> nat \<Rightarrow> 'v \<Rightarrow> 'v memory \<Rightarrow> 'v memory option" where
  "assign_mutable_as t pos x m = Option.bind (get_mutable t pos) (\<lambda>a. mem_write m a x)"

subsection \<open>A concrete tuple, for evaluation\<close>

text \<open>
  The scenario of the specification: a view over an integer variable holding 42 (at
  address 10) and a string variable holding \<open>hi\<close> (at address 11). A static type is
  given by its registry pair, values are integers or strings, memory also holds a
  counter at address 20, and \<open>example_token\<close> stands in for
  \<open>make_type_token\<close>. \<open>read_args\<close> is a handler that returns the values of its
  arguments; \<open>count_call\<close> is a handler returning \<open>void\<close> that increments the
  counter.
\<close>

datatype example_value = IntV int | StrV string

definition example_vars :: "(rtti_pair \<times> addr) list" where
  "example_vars = [((1, 100), 10), ((2, 200), 11)]"

definition example_memory :: "example_value memory" where
  "example_memory = \<lparr>cells = [10 \<mapsto> IntV 42, 11 \<mapsto> StrV ''hi'', 20 \<mapsto> IntV 0], brk = 21\<rparr>"

definition example_token :: "rtti_pair list \<Rightarrow> 32 word" where
  "example_token tys = foldl (\<lambda>tok T. 64 * tok + ucast (fst T)) (- 1) tys"

definition example_tuple :: "example_value type_erased_tuple" where
  "example_tuple = as_tuple (\<lambda>T. T) example_token (view_ctor example_vars)"

definition read_args :: "rtti_pair list \<Rightarrow> (rtti_pair, example_value, example_value option list) callable" where
  "read_args tys =
     \<lparr>arg_types = tys,
      call = (\<lambda>xs m. (map (\<lambda>p. Option.bind p (mem_read m)) (data xs), m))\<rparr>"

definition count_call :: "rtti_pair list \<Rightarrow> (rtti_pair, example_value, unit) callable" where
  "count_call tys =
     \<lparr>arg_types = tys,
      call = (\<lambda>xs m. ((), m\<lparr>cells := (cells m)(20 \<mapsto>
                (case cells m 20 of Some (IntV n) \<Rightarrow> IntV (n + 1) | _ \<Rightarrow> IntV 1))\<rparr>))\<rparr>"

text \<open>
  The loops are recursive equations that the simplifier must not unfold on its own.
\<close>

declare match_elements_loop.simps [simp del] fill_loop.simps [simp del]
  save_from.simps [simp del] load_from.simps [simp del] init_from.simps [simp del]

section \<open>Properties of the session\<close>

lemma handle_ssl_result_iff:
  "handle_ssl_result lib s ret \<longleftrightarrow>
     SSL_get_error lib (ssl_m s) ret = SSL_ERROR_WANT_READ \<or>
     SSL_get_error lib (ssl_m s) ret = SSL_ERROR_WANT_WRITE"
  by (simp add: handle_ssl_result_def split: ssl_error.split)

lemma read_some_failed:
  assumes "len \<noteq> 0" and "SSL_read lib (ssl_m s) buf (ucast len) = (ret, c)" and "\<not> 0 <s ret"
  shows "read_some lib s result buf len =
           (handle_ssl_result lib (s\<lparr>ssl_m := c\<rparr>) ret, 0, s\<lparr>ssl_m := c\<rparr>)"
  using assms by (simp add: read_some_def Let_def)

lemma write_some_failed:
  assumes "len \<noteq> 0" and "SSL_write lib (ssl_m s) buf (ucast len) = (ret, c)" and "\<not> 0 <s ret"
  shows "write_some lib s result buf len =
           (handle_ssl_result lib (s\<lparr>ssl_m := c\<rparr>) ret, 0, s\<lparr>ssl_m := c\<rparr>)"
  using assms by (simp add: write_some_def Let_def)

text \<open>
  C9, as stated: a try-again condition (want-read, want-write) is signalled by a
  \<open>false\<close> result. The code does otherwise: a read that makes no progress because the
  library wants to read again returns \<open>true\<close>, with zero bytes read.
\<close>

theorem C9_try_again_is_not_false:
  "fst (read_some scripted_lib (scripted_session [(- 1, SSL_ERROR_WANT_READ)]) 7 0 16) = True"
  by (simp add: read_some_def scripted_lib_def scripted_session_def scripted_io_def
      handle_ssl_result_def)

text \<open>
  C9, amended: when the library call underneath \<open>read_some\<close> makes no progress (a
  result that is not positive), \<open>read_some\<close> sets \<open>result\<close> to zero; it returns
  \<open>true\<close> when the underlying condition is want-read or want-write (no progress yet,
  retry later) and \<open>false\<close> when it is zero-return or syscall (the connection is
  closed). The same holds of \<open>write_some\<close> and the library call underneath it, each
  operation under its own call only. The two conditions are told apart by the returned
  \<open>bool\<close> itself.
\<close>

theorem C9_try_again_true_closed_false:
  assumes "len \<noteq> 0"
  shows "(SSL_read lib (ssl_m s) buf (ucast len) = (r, c) \<and> \<not> 0 <s r \<longrightarrow>
            (SSL_get_error lib c r \<in> {SSL_ERROR_WANT_READ, SSL_ERROR_WANT_WRITE} \<longrightarrow>
               read_some lib s result buf len = (True, 0, s\<lparr>ssl_m := c\<rparr>)) \<and>
            (SSL_get_error lib c r \<in> {SSL_ERROR_ZERO_RETURN, SSL_ERROR_SYSCALL} \<longrightarrow>
               read_some lib s result buf len = (False, 0, s\<lparr>ssl_m := c\<rparr>))) \<and>
         (SSL_write lib (ssl_m s) buf (ucast len) = (w, d) \<and> \<not> 0 <s w \<longrightarrow>
            (SSL_get_error lib d w \<in> {SSL_ERROR_WANT_READ, SSL_ERROR_WANT_WRITE} \<longrightarrow>
               write_some lib s result buf len = (True, 0, s\<lparr>ssl_m := d\<rparr>)) \<and>
            (SSL_get_error lib d w \<in> {SSL_ERROR_ZERO_RETURN, SSL_ERROR_SYSCALL} \<longrightarrow>
               write_some lib s result buf len = (False, 0, s\<lparr>ssl_m := d\<rparr>)))"
proof (intro conjI impI; elim conjE)
  assume rd: "SSL_read lib (ssl_m s) buf (ucast len) = (r, c)" "\<not> 0 <s r"
  have eq: "read_some lib s result buf len =
              (handle_ssl_result lib (s\<lparr>ssl_m := c\<rparr>) r, 0, s\<lparr>ssl_m := c\<rparr>)"
    using assms rd by (rule read_some_failed)
  {
    assume "SSL_get_error lib c r \<in> {SSL_ERROR_WANT_READ, SSL_ERROR_WANT_WRITE}"
    then show "read_some lib s result buf len = (True, 0, s\<lparr>ssl_m := c\<rparr>)"
      unfolding eq by (auto simp: handle_ssl_result_iff)
  }
  {
    assume "SSL_get_error lib c r \<in> {SSL_ERROR_ZERO_RETURN, SSL_ERROR_SYSCALL}"
    then show "read_some lib s result buf len = (False, 0, s\<lparr>ssl_m := c\<rparr>)"
      unfolding eq by (auto simp: handle_ssl_result_iff)
  }
next
  assume wr: "SSL_write lib (ssl_m s) buf (ucast len) = (w, d)" "\<not> 0 <s w"
  have eq: "write_some lib s result buf len =
              (handle_ssl_result lib (s\<lparr>ssl_m := d\<rparr>) w, 0, s\<lparr>ssl_m := d\<rparr>)"
    using assms wr by (rule write_some_failed)
  {
    assume "SSL_get_error lib d w \<in> {SSL_ERROR_WANT_READ, SSL_ERROR_WANT_WRITE}"
    then show "write_some lib s result buf len = (True, 0, s\<lparr>ssl_m := d\<rparr>)"
      unfolding eq by (auto simp: handle_ssl_result_iff)
  }
  {
    assume "SSL_get_error lib d w \<in> {SSL_ERROR_ZERO_RETURN, SSL_ERROR_SYSCALL}"
    then show "write_some lib s result buf len = (False, 0, s\<lparr>ssl_m := d\<rparr>)"
      unfolding eq by (auto simp: handle_ssl_result_iff)
  }
qed

theorem C9_try_again_true_closed_false_witness:
  "read_some scripted_lib (scripted_session [(- 1, SSL_ERROR_WANT_READ)]) 7 0 16 =
     (True, 0, \<lparr>ssl_m = \<lparr>pending = [], io_calls = 1, last_error = SSL_ERROR_WANT_READ\<rparr>\<rparr>) \<and>
   write_some scripted_lib (scripted_session [(- 1, SSL_ERROR_WANT_WRITE)]) 7 0 16 =
     (True, 0, \<lparr>ssl_m = \<lparr>pending = [], io_calls = 1, last_error = SSL_ERROR_WANT_WRITE\<rparr>\<rparr>) \<and>
   read_some scripted_lib (scripted_session [(0, SSL_ERROR_ZERO_RETURN)]) 7 0 16 =
     (False, 0, \<lparr>ssl_m = \<lparr>pending = [], io_calls = 1, last_error = SSL_ERROR_ZERO_RETURN\<rparr>\<rparr>) \<and>
   write_some scripted_lib (scripted_session [(- 1, SSL_ERROR_SYSCALL)]) 7 0 16 =
     (False, 0, \<lparr>ssl_m = \<lparr>pending = [], io_calls = 1, last_error = SSL_ERROR_SYSCALL\<rparr>\<rparr>) \<and>
   read_some write_ready_lib (scripted_session [(- 1, SSL_ERROR_WANT_READ)]) 7 0 16 =
     (True, 0, \<lparr>ssl_m = \<lparr>pending = [], io_calls = 1, last_error = SSL_ERROR_WANT_READ\<rparr>\<rparr>) \<and>
   write_some write_ready_lib (scripted_session [(- 1, SSL_ERROR_WANT_READ)]) 7 0 16 =
     (True, 16, \<lparr>ssl_m = \<lparr>pending = [(- 1, SSL_ERROR_WANT_READ)], io_calls = 1,
                           last_error = SSL_ERROR_OTHER\<rparr>\<rparr>)"
proof -
  have len: "(16 :: 64 word) \<noteq> 0"
    by simp
  have A: "read_some scripted_lib (scripted_session [(- 1, SSL_ERROR_WANT_READ)]) 7 0 16 =
     (True, 0, \<lparr>ssl_m = \<lparr>pending = [], io_calls = 1, last_error = SSL_ERROR_WANT_READ\<rparr>\<rparr>)"
    using C9_try_again_true_closed_false [OF len, where lib = scripted_lib
        and s = "scripted_session [(- 1, SSL_ERROR_WANT_READ)]" and buf = 0 and r = "- 1"
        and c = "\<lparr>pending = [], io_calls = 1, last_error = SSL_ERROR_WANT_READ\<rparr>"
        and result = 7, THEN conjunct1]
    by (simp add: scripted_lib_def scripted_session_def scripted_io_def)
  have B: "write_some scripted_lib (scripted_session [(- 1, SSL_ERROR_WANT_WRITE)]) 7 0 16 =
     (True, 0, \<lparr>ssl_m = \<lparr>pending = [], io_calls = 1, last_error = SSL_ERROR_WANT_WRITE\<rparr>\<rparr>)"
    using C9_try_again_true_closed_false [OF len, where lib = scripted_lib
        and s = "scripted_session [(- 1, SSL_ERROR_WANT_WRITE)]" and buf = 0 and w = "- 1"
        and d = "\<lparr>pending = [], io_calls = 1, last_error = SSL_ERROR_WANT_WRITE\<rparr>"
        and result = 7, THEN conjunct2]
    by (simp add: scripted_lib_def scripted_session_def scripted_io_def)
  have C: "read_some scripted_lib (scripted_session [(0, SSL_ERROR_ZERO_RETURN)]) 7 0 16 =
     (False, 0, \<lparr>ssl_m = \<lparr>pending = [], io_calls = 1, last_error = SSL_ERROR_ZERO_RETURN\<rparr>\<rparr>)"
    using C9_try_again_true_closed_false [OF len, where lib = scripted_lib
        and s = "scripted_session [(0, SSL_ERROR_ZERO_RETURN)]" and buf = 0 and r = 0
        and c = "\<lparr>pending = [], io_calls = 1, last_error = SSL_ERROR_ZERO_RETURN\<rparr>"
        and result = 7, THEN conjunct1]
    by (simp add: scripted_lib_def scripted_session_def scripted_io_def)
  have D: "write_some scripted_lib (scripted_session [(- 1, SSL_ERROR_SYSCALL)]) 7 0 16 =
     (False, 0, \<lparr>ssl_m = \<lparr>pending = [], io_calls = 1, last_error = SSL_ERROR_SYSCALL\<rparr>\<rparr>)"
    using C9_try_again_true_closed_false [OF len, where lib = scripted_lib
        and s = "scripted_session [(- 1, SSL_ERROR_SYSCALL)]" and buf = 0 and w = "- 1"
        and d = "\<lparr>pending = [], io_calls = 1, last_error = SSL_ERROR_SYSCALL\<rparr>"
        and result = 7, THEN conjunct2]
    by (simp add: scripted_lib_def scripted_session_def scripted_io_def)
  have E: "read_some write_ready_lib (scripted_session [(- 1, SSL_ERROR_WANT_READ)]) 7 0 16 =
     (True, 0, \<lparr>ssl_m = \<lparr>pending = [], io_calls = 1, last_error = SSL_ERROR_WANT_READ\<rparr>\<rparr>)"
    using C9_try_again_true_closed_false [OF len, where lib = write_ready_lib
        and s = "scripted_session [(- 1, SSL_ERROR_WANT_READ)]" and buf = 0 and r = "- 1"
        and c = "\<lparr>pending = [], io_calls = 1, last_error = SSL_ERROR_WANT_READ\<rparr>"
        and result = 7, THEN conjunct1]
    by (simp add: write_ready_lib_def scripted_session_def scripted_io_def)
  have F: "write_some write_ready_lib (scripted_session [(- 1, SSL_ERROR_WANT_READ)]) 7 0 16 =
     (True, 16, \<lparr>ssl_m = \<lparr>pending = [(- 1, SSL_ERROR_WANT_READ)], io_calls = 1,
                           last_error = SSL_ERROR_OTHER\<rparr>\<rparr>)"
    by (simp add: write_some_def write_ready_lib_def scripted_session_def Let_def
        word_sless_alt)
  from A B C D E F show ?thesis
    by blast
qed

text \<open>
  C10: a zero-length request is handled asymmetrically. \<open>write_some\<close> with length 0
  returns \<open>true\<close> and \<open>read_some\<close> with length 0 returns \<open>false\<close>; neither calls
  the library (whatever the library is, the session is returned as it was), and
  neither assigns to \<open>result\<close>.
\<close>

theorem C10_zero_length_asymmetry:
  "write_some lib s result buf 0 = (True, result, s) \<and>
   read_some lib s result buf 0 = (False, result, s)"
  by (simp add: write_some_def read_some_def)

theorem C10_zero_length_asymmetry_witness:
  "write_some scripted_lib (scripted_session [(5, SSL_ERROR_OTHER)]) 7 0 0 =
     (True, 7, \<lparr>ssl_m = \<lparr>pending = [(5, SSL_ERROR_OTHER)], io_calls = 0,
                          last_error = SSL_ERROR_OTHER\<rparr>\<rparr>) \<and>
   read_some scripted_lib (scripted_session [(5, SSL_ERROR_OTHER)]) 7 0 0 =
     (False, 7, \<lparr>ssl_m = \<lparr>pending = [(5, SSL_ERROR_OTHER)], io_calls = 0,
                           last_error = SSL_ERROR_OTHER\<rparr>\<rparr>)"
  using C10_zero_length_asymmetry [of scripted_lib "scripted_session [(5, SSL_ERROR_OTHER)]" 7 0]
  by (simp add: scripted_session_def)

section \<open>Properties of type-erased tuples\<close>

subsection \<open>The loops\<close>

lemma match_elements_loop_char:
  "i \<le> length arr \<Longrightarrow>
   \<exists>k. i \<le> k \<and> k \<le> length arr \<and>
       snd (match_elements_loop me arr t i seen) = seen @ [i..<k] \<and>
       (\<forall>j. i \<le> j \<and> Suc j < k \<longrightarrow> me (arr ! j) t j) \<and>
       (if fst (match_elements_loop me arr t i seen)
        then k = length arr \<and> (\<forall>j. i \<le> j \<and> j < k \<longrightarrow> me (arr ! j) t j)
        else i < k \<and> \<not> me (arr ! (k - 1)) t (k - 1))"
proof (induction me arr t i seen rule: match_elements_loop.induct)
  case (1 me arr t i seen)
  show ?case
  proof (cases "i < length arr")
    case False
    then have "match_elements_loop me arr t i seen = (True, seen)"
      by (simp add: match_elements_loop.simps [of me arr t i seen])
    moreover from False "1.prems" have "i = length arr" by simp
    ultimately show ?thesis
      by (intro exI [of _ i]) auto
  next
    case lt: True
    show ?thesis
    proof (cases "me (arr ! i) t i")
      case False
      with lt have "match_elements_loop me arr t i seen = (False, seen @ [i])"
        by (simp add: match_elements_loop.simps [of me arr t i seen])
      with lt False show ?thesis
        by (intro exI [of _ "Suc i"]) auto
    next
      case True
      with lt have eq: "match_elements_loop me arr t i seen =
          match_elements_loop me arr t (i + 1) (seen @ [i])"
        by (simp add: match_elements_loop.simps [of me arr t i seen])
      from lt True "1.IH" obtain k where k: "i + 1 \<le> k" "k \<le> length arr"
        "snd (match_elements_loop me arr t (i + 1) (seen @ [i])) = (seen @ [i]) @ [i + 1..<k]"
        "\<forall>j. i + 1 \<le> j \<and> Suc j < k \<longrightarrow> me (arr ! j) t j"
        "if fst (match_elements_loop me arr t (i + 1) (seen @ [i]))
         then k = length arr \<and> (\<forall>j. i + 1 \<le> j \<and> j < k \<longrightarrow> me (arr ! j) t j)
         else i + 1 < k \<and> \<not> me (arr ! (k - 1)) t (k - 1)"
        by fastforce
      let ?r = "match_elements_loop me arr t (i + 1) (seen @ [i])"
      have a: "i \<le> k \<and> k \<le> length arr"
        using k(1,2) by simp
      have b: "snd ?r = seen @ [i..<k]"
        using k(1,3) by (simp add: upt_conv_Cons)
      have c: "me (arr ! j) t j" if "i \<le> j" and "Suc j < k" for j
      proof (cases "j = i")
        case True
        with \<open>me (arr ! i) t i\<close> show ?thesis by simp
      next
        case False
        with that have "i + 1 \<le> j \<and> Suc j < k" by simp
        with k(4) show ?thesis by blast
      qed
      have d: "k = length arr \<and> (\<forall>j. i \<le> j \<and> j < k \<longrightarrow> me (arr ! j) t j)" if "fst ?r"
      proof -
        from that k(5) have e: "k = length arr"
          and f: "\<forall>j. i + 1 \<le> j \<and> j < k \<longrightarrow> me (arr ! j) t j"
          by simp_all
        have "me (arr ! j) t j" if "i \<le> j" and "j < k" for j
        proof (cases "j = i")
          case True
          with \<open>me (arr ! i) t i\<close> show ?thesis by simp
        next
          case False
          with that have "i + 1 \<le> j \<and> j < k" by simp
          with f show ?thesis by blast
        qed
        with e show ?thesis by blast
      qed
      have e: "i < k \<and> \<not> me (arr ! (k - 1)) t (k - 1)" if "\<not> fst ?r"
        using that k(5) by simp
      show ?thesis
        unfolding eq
      proof (intro exI [of _ k] conjI)
        show "if fst ?r
              then k = length arr \<and> (\<forall>j. i \<le> j \<and> j < k \<longrightarrow> me (arr ! j) t j)
              else i < k \<and> \<not> me (arr ! (k - 1)) t (k - 1)"
          using d e by (cases "fst ?r") simp_all
      qed (use a b c in blast)+
    qed
  qed
qed

lemma match_elements_iff:
  "match_elements me tys t \<longleftrightarrow>
     length tys = size_te t \<and> (\<forall>j<length tys. me (tys ! j) t j)"
proof (cases "length tys = size_te t")
  case False
  then show ?thesis
    by (simp add: match_elements_def match_elements_seen_def)
next
  case True
  obtain k where k:
    "if fst (match_elements_loop me tys t 0 [])
     then k = length tys \<and> (\<forall>j. 0 \<le> j \<and> j < k \<longrightarrow> me (tys ! j) t j)
     else 0 < k \<and> \<not> me (tys ! (k - 1)) t (k - 1)" "k \<le> length tys"
    using match_elements_loop_char [of 0 tys me t "[]"] by auto
  show ?thesis
  proof (cases "fst (match_elements_loop me tys t 0 [])")
    case fst: True
    with k True show ?thesis
      by (simp add: match_elements_def match_elements_seen_def)
  next
    case fst: False
    with k have "k - 1 < length tys" "\<not> me (tys ! (k - 1)) t (k - 1)"
      by auto
    then have "\<not> (\<forall>j<length tys. me (tys ! j) t j)"
      by blast
    with fst True show ?thesis
      by (simp add: match_elements_def match_elements_seen_def)
  qed
qed

lemma fill_loop_eq:
  "length xs = size_te t \<Longrightarrow> i \<le> size_te t \<Longrightarrow>
   fill_loop t i xs = take i xs @ map (get t) [i..<size_te t]"
proof (induction t i xs rule: fill_loop.induct)
  case (1 t i xs)
  show ?case
  proof (cases "i < size_te t")
    case False
    then have "fill_loop t i xs = xs"
      by (simp add: fill_loop.simps [of t i xs])
    with False "1.prems" show ?thesis
      by simp
  next
    case True
    then have "fill_loop t i xs = fill_loop t (i + 1) (xs[i := get t i])"
      by (simp add: fill_loop.simps [of t i xs])
    also have "\<dots> = take (i + 1) (xs[i := get t i]) @ map (get t) [i + 1..<size_te t]"
      using True "1.prems" by (intro "1.IH") simp_all
    also have "take (i + 1) (xs[i := get t i]) = take i xs @ [get t i]"
      using True "1.prems" by (simp add: take_Suc_conv_app_nth)
    finally show ?thesis
      using True by (simp add: upt_conv_Cons)
  qed
qed

lemma apply_data:
  assumes "match_elements me tys t"
  shows "fill_loop t 0 (replicate (length tys) None) = map (get t) [0..<size_te t]"
proof -
  from assms have "length tys = size_te t"
    by (simp add: match_elements_iff)
  then show ?thesis
    by (simp add: fill_loop_eq)
qed

lemma save_from_eq:
  "i \<le> size_te t \<Longrightarrow> save_from t i m sink = compose_save t [i..<size_te t] m sink"
proof (induction t i m sink rule: save_from.induct)
  case (1 t i m sink)
  show ?case
  proof (cases "i < size_te t")
    case False
    then have "save_from t i m sink = Some sink"
      by (simp add: save_from.simps [of t i m sink])
    with False show ?thesis
      by simp
  next
    case True
    then have upt: "[i..<size_te t] = i # [i + 1..<size_te t]"
      by (simp add: upt_conv_Cons)
    show ?thesis
    proof (cases "save_pos t i m sink")
      case None
      with True show ?thesis
        by (simp add: save_from.simps [of t i m sink] upt)
    next
      case (Some sink')
      with True have "save_from t i m sink = save_from t (i + 1) m sink'"
        by (simp add: save_from.simps [of t i m sink])
      also have "\<dots> = compose_save t [i + 1..<size_te t] m sink'"
        using True Some by (intro "1.IH") simp_all
      finally show ?thesis
        using Some by (simp add: upt)
    qed
  qed
qed

lemma load_from_eq:
  "i \<le> size_te t \<Longrightarrow> load_from t i source m = compose_load t [i..<size_te t] source m"
proof (induction t i source m rule: load_from.induct)
  case (1 t i source m)
  show ?case
  proof (cases "i < size_te t")
    case False
    then have "load_from t i source m = Some (source, m)"
      by (simp add: load_from.simps [of t i source m])
    with False show ?thesis
      by simp
  next
    case True
    then have upt: "[i..<size_te t] = i # [i + 1..<size_te t]"
      by (simp add: upt_conv_Cons)
    show ?thesis
    proof (cases "load_pos t i source m")
      case None
      with True show ?thesis
        by (simp add: load_from.simps [of t i source m] upt)
    next
      case (Some r)
      obtain source' m' where r: "r = (source', m')"
        by (cases r)
      with True Some have "load_from t i source m = load_from t (i + 1) source' m'"
        by (simp add: load_from.simps [of t i source m])
      also have "\<dots> = compose_load t [i + 1..<size_te t] source' m'"
        using True Some r by (intro "1.IH") simp_all
      finally show ?thesis
        using Some r by (simp add: upt)
    qed
  qed
qed

subsection \<open>Views\<close>

lemma init_from_xs [simp]: "xs_m (init_from P N v) = xs_m v"
proof (induction P N v rule: init_from.induct)
  case (1 P N v)
  then show ?case
    by (cases "N \<le> P") (simp_all add: init_from.simps [of P N v])
qed

lemma init_from_ptrs:
  "P \<le> N \<Longrightarrow> N \<le> length (ptrs_m v) \<Longrightarrow>
   ptrs_m (init_from P N v) = take P (ptrs_m v) @ map Some [P..<N] @ drop N (ptrs_m v)"
proof (induction P N v rule: init_from.induct)
  case (1 P N v)
  show ?case
  proof (cases "N \<le> P")
    case True
    then have "init_from P N v = v"
      by (simp add: init_from.simps [of P N v])
    with True "1.prems" show ?thesis
      by simp
  next
    case False
    let ?v = "v\<lparr>ptrs_m := (ptrs_m v)[P := Some P]\<rparr>"
    from False have "init_from P N v = init_from (P + 1) N ?v"
      by (simp add: init_from.simps [of P N v])
    also have "ptrs_m \<dots> = take (P + 1) (ptrs_m ?v) @ map Some [P + 1..<N] @ drop N (ptrs_m ?v)"
      using False "1.prems" by (intro "1.IH") simp_all
    also have "take (P + 1) (ptrs_m ?v) = take P (ptrs_m v) @ [Some P]"
      using False "1.prems" by (simp add: take_Suc_conv_app_nth)
    also have "drop N (ptrs_m ?v) = drop N (ptrs_m v)"
      using False by simp
    finally show ?thesis
      using False by (simp add: upt_conv_Cons)
  qed
qed

lemma view_ok_init:
  assumes "length (ptrs_m v) = (if length (xs_m v) = 0 then 1 else length (xs_m v))"
    and "length (xs_m v) = 0 \<longrightarrow> ptrs_m v = [None]"
  shows "view_ok (init v)"
proof -
  have "ptrs_m (init v) =
          take 0 (ptrs_m v) @ map Some [0..<length (xs_m v)] @ drop (length (xs_m v)) (ptrs_m v)"
    unfolding init_def using assms(1) by (intro init_from_ptrs) (simp_all split: if_splits)
  moreover have "drop (length (xs_m v)) (ptrs_m v) = (if length (xs_m v) = 0 then [None] else [])"
    using assms by (simp split: if_splits)
  ultimately show ?thesis
    by (simp add: view_ok_def init_def)
qed

text \<open>Both constructors establish \<open>view_ok\<close>.\<close>

lemma view_ok_ctor: "view_ok (view_ctor vars)"
  unfolding view_ctor_def by (rule view_ok_init) simp_all

lemma view_ok_copy_ctor: "view_ok (view_copy_ctor other)"
  unfolding view_copy_ctor_def by (rule view_ok_init) simp_all

lemma xs_view_ctor: "xs_m (view_ctor vars) = map (\<lambda>(T, a). \<lparr>vtype = T, ref = a\<rparr>) vars"
  by (simp add: view_ctor_def init_def)

lemma xs_view_copy_ctor: "xs_m (view_copy_ctor other) = xs_m other"
  by (simp add: view_copy_ctor_def init_def)

lemma ptr_at_ok:
  assumes "view_ok v"
  shows "ptr_at v pos = (if pos < length (xs_m v) then Some (xs_m v ! pos) else None)"
proof (cases "pos < length (xs_m v)")
  case True
  with assms have "pos < length (ptrs_m v)" "ptrs_m v ! pos = Some pos"
    by (simp_all add: view_ok_def nth_append)
  with True show ?thesis
    by (simp add: ptr_at_def)
next
  case False
  show ?thesis
  proof (cases "pos < length (ptrs_m v)")
    case False
    with \<open>\<not> pos < length (xs_m v)\<close> show ?thesis
      by (simp add: ptr_at_def)
  next
    case True
    with assms \<open>\<not> pos < length (xs_m v)\<close> have "xs_m v = []" "pos = 0"
      by (auto simp: view_ok_def split: if_splits)
    with assms have "ptrs_m v ! pos = None"
      by (simp add: view_ok_def)
    with True \<open>\<not> pos < length (xs_m v)\<close> show ?thesis
      by (simp add: ptr_at_def)
  qed
qed

lemma as_tuple_simps [simp]:
  "get_mutable (as_tuple rtti mk v) = view_get_mutable v"
  "load_pos (as_tuple rtti mk v) = view_load v"
  "size_te (as_tuple rtti mk v) = view_size v"
  "type_token (as_tuple rtti mk v) = view_type_token mk v"
  "type (as_tuple rtti mk v) = view_type rtti v"
  "get (as_tuple rtti mk v) = view_get v"
  "save_pos (as_tuple rtti mk v) = view_save v"
  "shared (as_tuple rtti mk v) = False"
  by (simp_all add: as_tuple_def)

lemma matches_iff: "matches t pos n p \<longleftrightarrow> type t pos = Some (n, p)"
  by (auto simp: matches_def split: option.splits)

lemma compose_save_view:
  assumes "view_ok v" and "\<forall>x\<in>set (xs_m v). ref x \<in> dom (cells m)"
  shows "set ps \<subseteq> {..<length (xs_m v)} \<Longrightarrow>
         compose_save (as_tuple rtti mk v) ps m sink =
           Some (sink @ map (\<lambda>p. the (cells m (ref (xs_m v ! p)))) ps)"
proof (induction ps arbitrary: sink)
  case Nil
  then show ?case by simp
next
  case (Cons p ps)
  then have p: "p < length (xs_m v)"
    by simp
  with assms(2) obtain y where y: "cells m (ref (xs_m v ! p)) = Some y"
    by (meson domD nth_mem)
  have "view_save v p m sink = Some (sink @ [y])"
    using assms(1) p y by (simp add: view_save_def ptr_at_ok tev_save_def mem_read_def)
  with Cons y show ?case
    by simp
qed

lemma compose_load_view:
  assumes "view_ok v"
  shows "set ps \<subseteq> {..<length (xs_m v)} \<Longrightarrow> \<forall>x\<in>set (xs_m v). ref x \<in> dom (cells m) \<Longrightarrow>
         length ps \<le> length source \<Longrightarrow>
         \<exists>m'. compose_load (as_tuple rtti mk v) ps source m = Some (drop (length ps) source, m') \<and>
              dom (cells m') = dom (cells m)"
proof (induction ps arbitrary: source m)
  case Nil
  then show ?case by simp
next
  case (Cons p ps)
  then have p: "p < length (xs_m v)"
    by simp
  from Cons.prems(3) obtain y rest where src: "source = y # rest"
    by (cases source) simp_all
  let ?a = "ref (xs_m v ! p)"
  let ?m = "m\<lparr>cells := (cells m)(?a \<mapsto> y)\<rparr>"
  from Cons.prems(2) p have live: "?a \<in> dom (cells m)"
    by simp
  then have dom: "dom (cells ?m) = dom (cells m)"
    by auto
  have step: "view_load v p source m = Some (rest, ?m)"
    using assms p live src by (simp add: view_load_def ptr_at_ok tev_load_def mem_write_def)
  have live': "\<forall>x\<in>set (xs_m v). ref x \<in> dom (cells ?m)"
    using Cons.prems(2) unfolding dom .
  have "\<exists>m'. compose_load (as_tuple rtti mk v) ps rest ?m = Some (drop (length ps) rest, m') \<and>
          dom (cells m') = dom (cells ?m)"
  proof (rule Cons.IH)
    show "set ps \<subseteq> {..<length (xs_m v)}"
      using Cons.prems(1) by simp
    show "\<forall>x\<in>set (xs_m v). ref x \<in> dom (cells ?m)"
      by (rule live')
    show "length ps \<le> length rest"
      using Cons.prems(3) src by simp
  qed
  with step src dom show ?case
    by auto
qed

subsection \<open>The concrete tuple\<close>

lemma example_view:
  "view_ctor example_vars =
     \<lparr>xs_m = [\<lparr>vtype = (1, 100), ref = 10\<rparr>, \<lparr>vtype = (2, 200), ref = 11\<rparr>],
      ptrs_m = [Some 0, Some 1]\<rparr>"
  by (simp add: view_ctor_def example_vars_def init_def init_from.simps numeral_2_eq_2)

lemma example_view_copy:
  "view_copy_ctor (view_ctor example_vars) = view_ctor example_vars"
  by (simp add: example_view view_copy_ctor_def init_def init_from.simps numeral_2_eq_2)

lemma example_tuple_size: "size_te example_tuple = 2"
  by (simp add: example_tuple_def example_view view_size_def)

lemma example_tuple_type:
  "type example_tuple 0 = Some (1, 100)" "type example_tuple (Suc 0) = Some (2, 200)"
  by (simp_all add: example_tuple_def example_view view_type_def ptr_at_def tev_type_def)

lemma example_tuple_get:
  "get example_tuple 0 = Some 10" "get example_tuple (Suc 0) = Some 11"
  by (simp_all add: example_tuple_def example_view view_get_def ptr_at_def tev_get_def)

lemma example_match:
  "match_element (1, 100) example_tuple 0" "match_element (2, 200) example_tuple (Suc 0)"
  "\<not> match_element (2, 200) example_tuple 0"
  by (simp_all add: match_element_def matches_rtti_def matches_def example_tuple_type)

lemma example_mem_ok: "mem_ok example_memory"
  by (auto simp: mem_ok_def example_memory_def split: if_splits)

lemma example_data: "map (get example_tuple) [0..<size_te example_tuple] = [Some 10, Some 11]"
  by (simp add: example_tuple_size example_tuple_get upt_rec)

lemma example_shared: "shared example_tuple = False"
  by (simp add: example_tuple_def)

lemma example_view_get: "view_get (view_ctor example_vars) 0 = Some 10"
  by (simp add: example_view view_get_def ptr_at_def tev_get_def)

lemma example_read: "mem_read example_memory 10 = Some (IntV 42)"
  by (simp add: example_memory_def mem_read_def)

subsection \<open>Matching and application\<close>

text \<open>
  C3: on a tuple of arity \<open>m\<close> and a static type list of length \<open>n \<noteq> m\<close>,
  \<open>match_elements\<close> returns \<open>false\<close> and inspects no element. When \<open>n = m\<close>
  the positions inspected are \<open>0, 1, \<dots>, k - 1\<close> in this order for some \<open>k \<le> n\<close>;
  all of them but possibly the last match; the result is \<open>true\<close> exactly when all
  \<open>n\<close> positions were inspected and match, and otherwise the last position inspected
  is the first mismatch. So \<open>match_elements\<close> is \<open>true\<close> if and only if the
  arities agree and every position matches.
\<close>

theorem C3_match_elements:
  "(length tys \<noteq> size_te t \<longrightarrow> match_elements_seen me tys t = (False, [])) \<and>
   (length tys = size_te t \<longrightarrow>
      (\<exists>k\<le>length tys.
          snd (match_elements_seen me tys t) = [0..<k] \<and>
          (\<forall>j. Suc j < k \<longrightarrow> me (tys ! j) t j) \<and>
          (if match_elements me tys t then k = length tys
           else 0 < k \<and> \<not> me (tys ! (k - 1)) t (k - 1)))) \<and>
   (match_elements me tys t \<longleftrightarrow>
      length tys = size_te t \<and> (\<forall>j<length tys. me (tys ! j) t j))"
proof (intro conjI impI)
  assume "length tys \<noteq> size_te t"
  then show "match_elements_seen me tys t = (False, [])"
    by (simp add: match_elements_seen_def)
next
  assume eq: "length tys = size_te t"
  obtain k where k: "k \<le> length tys"
    "snd (match_elements_loop me tys t 0 []) = [] @ [0..<k]"
    "\<forall>j. 0 \<le> j \<and> Suc j < k \<longrightarrow> me (tys ! j) t j"
    "if fst (match_elements_loop me tys t 0 [])
     then k = length tys \<and> (\<forall>j. 0 \<le> j \<and> j < k \<longrightarrow> me (tys ! j) t j)
     else 0 < k \<and> \<not> me (tys ! (k - 1)) t (k - 1)"
    using match_elements_loop_char [of 0 tys me t "[]"] by auto
  have seen: "match_elements_seen me tys t = match_elements_loop me tys t 0 []"
    using eq by (simp add: match_elements_seen_def)
  show "\<exists>k\<le>length tys.
          snd (match_elements_seen me tys t) = [0..<k] \<and>
          (\<forall>j. Suc j < k \<longrightarrow> me (tys ! j) t j) \<and>
          (if match_elements me tys t then k = length tys
           else 0 < k \<and> \<not> me (tys ! (k - 1)) t (k - 1))"
    unfolding match_elements_def seen
    using k by (intro exI [of _ k]) (simp split: if_splits)
next
  show "match_elements me tys t \<longleftrightarrow>
      length tys = size_te t \<and> (\<forall>j<length tys. me (tys ! j) t j)"
    by (rule match_elements_iff)
qed

theorem C3_match_elements_witness:
  "match_elements_seen match_element [(1, 100)] example_tuple = (False, []) \<and>
   match_elements_seen match_element [(1, 100), (2, 200)] example_tuple = (True, [0, 1]) \<and>
   match_elements_seen match_element [(2, 200), (1, 100)] example_tuple = (False, [0]) \<and>
   match_elements match_element [(1, 100), (2, 200)] example_tuple \<and>
   \<not> match_elements match_element [(2, 200), (1, 100)] example_tuple"
proof -
  have "\<forall>j<length [(1, 100), (2, 200) :: rtti_pair].
          match_element ([(1, 100), (2, 200)] ! j) example_tuple j"
    by (auto simp: less_Suc_eq example_match)
  moreover have "\<not> (\<forall>j<length [(2, 200), (1, 100) :: rtti_pair].
          match_element ([(2, 200), (1, 100)] ! j) example_tuple j)"
    using example_match(3) by auto
  ultimately show ?thesis
    using C3_match_elements [of "[(1, 100)]" example_tuple match_element]
      C3_match_elements [of "[(1, 100), (2, 200)]" example_tuple match_element]
      C3_match_elements [of "[(2, 200), (1, 100)]" example_tuple match_element]
    by (simp add: example_tuple_size match_elements_seen_def match_elements_loop.simps
        example_match)
qed

text \<open>
  C1: when the parameter types of a callable match the shape of the tuple (same arity,
  every position matches), \<open>apply\<close> calls it exactly once, with the pseudo tuple whose
  slots are the element pointers \<open>get(0), \<dots>, get(size() - 1)\<close> in positional order
  (the arguments are the tuple's elements themselves). For a callable \<open>f\<close> that
  returns a value the result is a present optional holding that value; for a callable
  \<open>g\<close> that returns \<open>void\<close> the result is \<open>unit\<close>, which is not \<open>none\<close>.
\<close>

theorem C1_apply_on_match:
  assumes "length (arg_types f) = size_te t"
    and "\<forall>i < size_te t. me (arg_types f ! i) t i"
    and "length (arg_types g) = size_te t"
    and "\<forall>i < size_te t. me (arg_types g ! i) t i"
    and "xs = \<lparr>shared_access = shared t, data = map (get t) [0..<size_te t]\<rparr>"
  shows "apply_R me t f m = (Some (fst (call f xs m)), snd (call f xs m), [xs]) \<and>
         apply_void me t g m = (Some (), snd (call g xs m), [xs]) \<and>
         fst (apply_void me t g m) \<noteq> None"
proof -
  have mf: "match_elements me (arg_types f) t"
    using assms(1,2) by (simp add: match_elements_iff)
  have mg: "match_elements me (arg_types g) t"
    using assms(3,4) by (simp add: match_elements_iff)
  have "apply_R me t f m = (Some (fst (call f xs m)), snd (call f xs m), [xs])"
    using mf by (simp add: apply_R_def apply_data [OF mf] apply_args_def assms(5) split_beta Let_def)
  moreover have "apply_void me t g m = (Some (), snd (call g xs m), [xs])"
    using mg by (simp add: apply_void_def apply_data [OF mg] apply_args_def assms(5) split_beta Let_def)
  ultimately show ?thesis
    by simp
qed

theorem C1_apply_on_match_witness:
  "apply_R match_element example_tuple (read_args [(1, 100), (2, 200)]) example_memory =
     (Some [Some (IntV 42), Some (StrV ''hi'')], example_memory,
      [\<lparr>shared_access = False, data = [Some 10, Some 11]\<rparr>]) \<and>
   fst (apply_void match_element example_tuple (count_call [(1, 100), (2, 200)]) example_memory) =
     Some () \<and>
   mem_read (fst (snd (apply_void match_element example_tuple (count_call [(1, 100), (2, 200)])
     example_memory))) 20 = Some (IntV 1) \<and>
   snd (snd (apply_void match_element example_tuple (count_call [(1, 100), (2, 200)])
     example_memory)) = [\<lparr>shared_access = False, data = [Some 10, Some 11]\<rparr>]"
proof -
  let ?tys = "[(1, 100), (2, 200)] :: rtti_pair list"
  let ?xs = "\<lparr>shared_access = False, data = [Some 10, Some 11]\<rparr>"
  have len: "length (arg_types (read_args ?tys)) = size_te example_tuple"
    "length (arg_types (count_call ?tys)) = size_te example_tuple"
    by (simp_all add: read_args_def count_call_def example_tuple_size)
  have all: "\<forall>i < size_te example_tuple. match_element (arg_types (read_args ?tys) ! i) example_tuple i"
    "\<forall>i < size_te example_tuple. match_element (arg_types (count_call ?tys) ! i) example_tuple i"
    by (auto simp: read_args_def count_call_def example_tuple_size numeral_2_eq_2 less_Suc_eq
        example_match)
  have xs: "?xs = \<lparr>shared_access = shared example_tuple,
                  data = map (get example_tuple) [0..<size_te example_tuple]\<rparr>"
    by (simp add: example_data example_shared)
  note inst = C1_apply_on_match [where f = "read_args ?tys" and t = example_tuple
        and me = match_element and g = "count_call ?tys" and xs = ?xs and m = example_memory,
        OF len(1) all(1) len(2) all(2) xs]
  show ?thesis
    using inst by (simp add: read_args_def count_call_def example_memory_def mem_read_def)
qed

text \<open>
  C2: when the parameter types of a callable do not match the shape of the tuple,
  \<open>apply\<close> returns \<open>none\<close>, makes no call, and leaves memory (so every element of
  the tuple) as it was.
\<close>

theorem C2_apply_on_mismatch:
  assumes "\<not> (length (arg_types f) = size_te t \<and> (\<forall>i < size_te t. me (arg_types f ! i) t i))"
    and "\<not> (length (arg_types g) = size_te t \<and> (\<forall>i < size_te t. me (arg_types g ! i) t i))"
  shows "apply_R me t f m = (None, m, []) \<and> apply_void me t g m = (None, m, [])"
proof -
  have "\<not> match_elements me (arg_types f) t"
    using assms(1) by (auto simp: match_elements_iff)
  moreover have "\<not> match_elements me (arg_types g) t"
    using assms(2) by (auto simp: match_elements_iff)
  ultimately show ?thesis
    by (simp add: apply_R_def apply_void_def)
qed

theorem C2_apply_on_mismatch_witness:
  "apply_R match_element example_tuple (read_args [(2, 200), (1, 100)]) example_memory =
     (None, example_memory, []) \<and>
   apply_void match_element example_tuple (count_call [(2, 200), (1, 100)]) example_memory =
     (None, example_memory, [])"
proof -
  let ?tys = "[(2, 200), (1, 100)] :: rtti_pair list"
  have "\<not> match_element (arg_types (read_args ?tys) ! 0) example_tuple 0"
    "\<not> match_element (arg_types (count_call ?tys) ! 0) example_tuple 0"
    by (simp_all add: read_args_def count_call_def example_match)
  moreover have "0 < size_te example_tuple"
    by (simp add: example_tuple_size)
  ultimately have "\<not> (length (arg_types (read_args ?tys)) = size_te example_tuple \<and>
        (\<forall>i < size_te example_tuple. match_element (arg_types (read_args ?tys) ! i) example_tuple i))"
    "\<not> (length (arg_types (count_call ?tys)) = size_te example_tuple \<and>
        (\<forall>i < size_te example_tuple. match_element (arg_types (count_call ?tys) ! i) example_tuple i))"
    by blast+
  then show ?thesis
    by (rule C2_apply_on_mismatch)
qed

text \<open>
  C4: \<open>matches(pos, n, p)\<close> is true if and only if the type number and the
  \<open>type_info\<close> token both agree with those of the element at \<open>pos\<close>, and so is
  the overload taking an \<open>rtti_pair\<close>. In particular \<open>matches\<close> holds at a
  position for that position's own \<open>type(pos)\<close>, and for a view this is the case at
  every position below \<open>size()\<close>.
\<close>

theorem C4_matches:
  "(matches t pos n p \<longleftrightarrow> type t pos = Some (n, p)) \<and>
   (matches_rtti t pos (n, p) \<longleftrightarrow> type t pos = Some (n, p)) \<and>
   (\<forall>tp. type t pos = Some tp \<longrightarrow> matches t pos (fst tp) (snd tp) \<and> matches_rtti t pos tp) \<and>
   (view_ok v \<and> q < size_te (as_tuple rtti mk v :: 'v type_erased_tuple) \<longrightarrow>
      type (as_tuple rtti mk v :: 'v type_erased_tuple) q = Some (rtti (vtype (xs_m v ! q))) \<and>
      matches (as_tuple rtti mk v :: 'v type_erased_tuple) q
        (fst (rtti (vtype (xs_m v ! q)))) (snd (rtti (vtype (xs_m v ! q)))))"
  by (auto simp: matches_iff matches_rtti_def view_type_def ptr_at_ok view_size_def tev_type_def)

theorem C4_matches_witness:
  "matches example_tuple 0 1 100 \<and> \<not> matches example_tuple 0 1 200 \<and>
   \<not> matches example_tuple 0 2 100 \<and> matches_rtti example_tuple 1 (2, 200) \<and>
   \<not> matches example_tuple 2 1 100"
proof -
  have "type example_tuple 2 = None"
    by (simp add: example_tuple_def example_view view_type_def ptr_at_def)
  then show ?thesis
    using C4_matches [where t = example_tuple and pos = 0 and n = 1 and p = 100,
        THEN conjunct1]
      C4_matches [where t = example_tuple and pos = 0 and n = 1 and p = 200, THEN conjunct1]
      C4_matches [where t = example_tuple and pos = 0 and n = 2 and p = 100, THEN conjunct1]
      C4_matches [where t = example_tuple and pos = 1 and n = 2 and p = 200,
        THEN conjunct2, THEN conjunct1]
      C4_matches [where t = example_tuple and pos = 2 and n = 1 and p = 100, THEN conjunct1]
    by (simp add: example_tuple_type)
qed

subsection \<open>Views: token, copies, aliasing\<close>

text \<open>
  C5: the type token of a view is a function of its ordered static type list only:
  it is \<open>make_type_token\<close> of that list. Two views with the same types in the same
  order have the same token, whatever variables they refer to; so do a view and its
  copy, and two views constructed independently over variables of the same types.
\<close>

theorem C5_type_token:
  "view_type_token mk v = mk (Ts v) \<and>
   (Ts v = Ts w \<longrightarrow>
      view_type_token mk v = view_type_token mk w \<and>
      type_token (as_tuple rtti mk v :: 'v type_erased_tuple) =
        type_token (as_tuple rtti mk w :: 'v type_erased_tuple)) \<and>
   view_type_token mk (view_copy_ctor v) = view_type_token mk v \<and>
   (map fst vars = map fst vars' \<longrightarrow>
      view_type_token mk (view_ctor vars) = view_type_token mk (view_ctor vars'))"
proof -
  have "Ts (view_ctor vs) = map fst vs" for vs :: "('a \<times> addr) list"
    by (simp add: Ts_def xs_view_ctor split_beta)
  moreover have "Ts (view_copy_ctor v) = Ts v"
    by (simp add: Ts_def xs_view_copy_ctor)
  ultimately show ?thesis
    by (simp add: view_type_token_def)
qed

theorem C5_type_token_witness:
  "view_type_token example_token (view_ctor example_vars) =
     view_type_token example_token (view_ctor [((1, 100), 30), ((2, 200), 31)]) \<and>
   view_type_token example_token (view_copy_ctor (view_ctor example_vars)) =
     view_type_token example_token (view_ctor example_vars)"
proof -
  have "map fst example_vars = map fst [((1, 100), 30), ((2, 200), 31 :: addr)]"
    by (simp add: example_vars_def)
  with C5_type_token [where mk = example_token and v = "view_ctor example_vars"
      and w = "view_ctor example_vars" and vars = example_vars
      and vars' = "[((1, 100), 30), ((2, 200), 31)]"]
  show ?thesis
    by blast
qed

text \<open>
  C6: for a view, a position below \<open>size()\<close> and a live referenced variable holding
  \<open>x\<close>, \<open>copy(pos)\<close> returns a value of the same type with storage of its own: a
  new address, distinct from the variable's, holding \<open>x\<close>. The variable is unchanged by
  the copy. Assigning to the variable afterwards, or destroying it, leaves the copy
  holding \<open>x\<close>.
\<close>

theorem C6_copy_is_independent:
  assumes "view_ok v" and "pos < view_size v" and "mem_ok m"
    and "view_get v pos = Some a" and "mem_read m a = Some x"
  shows "\<exists>c m'. view_copy v pos m = Some (c, m') \<and>
           vtype c = vtype (xs_m v ! pos) \<and>
           tev_get c \<noteq> a \<and> tev_get c \<notin> dom (cells m) \<and>
           mem_read m' (tev_get c) = Some x \<and>
           mem_read m' a = Some x \<and>
           (\<forall>y m''. mem_write m' a y = Some m'' \<longrightarrow> mem_read m'' (tev_get c) = Some x) \<and>
           mem_read (mem_destroy m' a) (tev_get c) = Some x"
proof -
  from assms(1,2) have p: "ptr_at v pos = Some (xs_m v ! pos)"
    by (simp add: ptr_at_ok view_size_def)
  with assms(4) have a: "a = ref (xs_m v ! pos)"
    by (simp add: view_get_def tev_get_def)
  from assms(5) have "a \<in> dom (cells m)"
    by (auto simp: mem_read_def)
  with assms(3) have lt: "a < brk m"
    by (simp add: mem_ok_def)
  then have fresh: "brk m \<notin> dom (cells m)"
    using assms(3) by (auto simp: mem_ok_def)
  let ?c = "\<lparr>vtype = vtype (xs_m v ! pos), ref = brk m\<rparr>"
  let ?m = "\<lparr>cells = (cells m)(brk m \<mapsto> x), brk = Suc (brk m)\<rparr>"
  have "view_copy v pos m = Some (?c, ?m)"
    using p a assms(5) by (simp add: view_copy_def tev_copy_def mem_new_def)
  moreover have "tev_get ?c \<noteq> a" "tev_get ?c \<notin> dom (cells m)"
    using lt fresh by (simp_all add: tev_get_def)
  moreover have "mem_read ?m (tev_get ?c) = Some x"
    by (simp add: mem_read_def tev_get_def)
  moreover have "mem_read ?m a = Some x"
    using lt assms(5) by (simp add: mem_read_def)
  moreover have "\<forall>y m''. mem_write ?m a y = Some m'' \<longrightarrow> mem_read m'' (tev_get ?c) = Some x"
    using lt by (auto simp: mem_write_def mem_read_def tev_get_def split: if_splits)
  moreover have "mem_read (mem_destroy ?m a) (tev_get ?c) = Some x"
    using lt by (simp add: mem_destroy_def mem_read_def tev_get_def)
  ultimately show ?thesis
    by (intro exI [of _ ?c] exI [of _ ?m]) simp
qed

theorem C6_copy_is_independent_witness:
  "view_copy (view_ctor example_vars) 0 example_memory =
     Some (\<lparr>vtype = (1, 100), ref = 21\<rparr>,
           \<lparr>cells = [10 \<mapsto> IntV 42, 11 \<mapsto> StrV ''hi'', 20 \<mapsto> IntV 0, 21 \<mapsto> IntV 42],
            brk = 22\<rparr>) \<and>
   (\<exists>c m'. view_copy (view_ctor example_vars) 0 example_memory = Some (c, m') \<and>
      tev_get c \<noteq> 10 \<and>
      mem_read m' (tev_get c) = Some (IntV 42) \<and>
      (\<forall>y m''. mem_write m' 10 y = Some m'' \<longrightarrow> mem_read m'' (tev_get c) = Some (IntV 42)) \<and>
      mem_read (mem_destroy m' 10) (tev_get c) = Some (IntV 42))"
proof -
  have size: "0 < view_size (view_ctor example_vars)"
    by (simp add: example_view view_size_def)
  note inst = C6_copy_is_independent [OF view_ok_ctor size example_mem_ok example_view_get
      example_read]
  have "view_copy (view_ctor example_vars) 0 example_memory =
     Some (\<lparr>vtype = (1, 100), ref = 21\<rparr>,
           \<lparr>cells = [10 \<mapsto> IntV 42, 11 \<mapsto> StrV ''hi'', 20 \<mapsto> IntV 0, 21 \<mapsto> IntV 42],
            brk = 22\<rparr>)"
    by (simp add: example_view view_copy_def ptr_at_def tev_copy_def mem_new_def mem_read_def
        example_memory_def)
  with inst show ?thesis
    by blast
qed

text \<open>
  C7: a copy-constructed view \<open>w\<close> of a view \<open>v\<close> refers to the same external
  variables. At every position below \<open>size()\<close>, \<open>get\<close> and \<open>get_mutable\<close> of
  \<open>w\<close> return the address of the variable that \<open>v\<close> refers to there, so a value
  assigned through \<open>w.get_mutable(i)\<close> is what is read afterwards through \<open>v\<close>,
  through \<open>w\<close> and from the variable itself.
\<close>

theorem C7_copy_ctor_same_externals:
  assumes "view_ok v" and "i < view_size v"
    and "w = view_copy_ctor v" and "a = ref (xs_m v ! i)"
    and "tv = as_tuple rtti mk v" and "tw = as_tuple rtti mk w"
  shows "view_size w = view_size v \<and>
         get tv i = Some a \<and> get tw i = Some a \<and> get_mutable tw i = Some a \<and>
         (\<forall>m x m'. assign_mutable_as tw i x m = Some m' \<longrightarrow>
            get_as tv i m' = Some x \<and> get_as tw i m' = Some x \<and> mem_read m' a = Some x)"
proof -
  have ok: "view_ok w"
    using assms(3) by (simp add: view_ok_copy_ctor)
  have xs: "xs_m w = xs_m v"
    using assms(3) by (simp add: xs_view_copy_ctor)
  have v: "ptr_at v i = Some (xs_m v ! i)"
    using assms(1,2) by (simp add: ptr_at_ok view_size_def)
  have w: "ptr_at w i = Some (xs_m v ! i)"
    using ok xs assms(2) by (simp add: ptr_at_ok view_size_def)
  have g: "get tv i = Some a" "get tw i = Some a" "get_mutable tw i = Some a"
    using v w assms(4-6) by (simp_all add: view_get_def view_get_mutable_def tev_get_def tev_get_mutable_def)
  have "get_as tv i m' = Some x \<and> get_as tw i m' = Some x \<and> mem_read m' a = Some x"
    if "assign_mutable_as tw i x m = Some m'" for m x m'
  proof -
    from that g(3) have "mem_write m a x = Some m'"
      by (simp add: assign_mutable_as_def)
    then have "mem_read m' a = Some x"
      by (auto simp: mem_write_def mem_read_def split: if_splits)
    with g show ?thesis
      by (simp add: get_as_def)
  qed
  with g xs show ?thesis
    by (simp add: view_size_def)
qed

theorem C7_copy_ctor_same_externals_witness:
  "get (as_tuple (\<lambda>T. T) example_token (view_copy_ctor (view_ctor example_vars))
         :: example_value type_erased_tuple) 1 = Some 11 \<and>
   get example_tuple 1 = Some 11 \<and>
   Option.bind
     (assign_mutable_as (as_tuple (\<lambda>T. T) example_token (view_copy_ctor (view_ctor example_vars)))
        1 (StrV ''ho'') example_memory)
     (get_as example_tuple 1) = Some (StrV ''ho'') \<and>
   Option.bind
     (assign_mutable_as (as_tuple (\<lambda>T. T) example_token (view_copy_ctor (view_ctor example_vars)))
        1 (StrV ''ho'') example_memory)
     (\<lambda>m'. mem_read m' 11) = Some (StrV ''ho'')"
proof -
  let ?tw = "as_tuple (\<lambda>T. T) example_token (view_copy_ctor (view_ctor example_vars))
               :: example_value type_erased_tuple"
  have size: "1 < view_size (view_ctor example_vars)"
    by (simp add: example_view view_size_def)
  have a: "11 = ref (xs_m (view_ctor example_vars) ! 1)"
    by (simp add: example_view)
  note inst = C7_copy_ctor_same_externals [where v = "view_ctor example_vars" and i = 1
      and w = "view_copy_ctor (view_ctor example_vars)" and a = 11 and tv = example_tuple
      and tw = ?tw and rtti = "\<lambda>T. T" and mk = example_token,
      OF view_ok_ctor size refl a example_tuple_def refl]
  then have gm: "get_mutable ?tw 1 = Some 11"
    by blast
  have "mem_write example_memory 11 (StrV ''ho'') \<noteq> None"
    by (simp add: mem_write_def example_memory_def)
  with gm obtain m' where m': "assign_mutable_as ?tw 1 (StrV ''ho'') example_memory = Some m'"
    by (auto simp: assign_mutable_as_def)
  with inst have "get_as example_tuple 1 m' = Some (StrV ''ho'')"
    "mem_read m' 11 = Some (StrV ''ho'')"
    by blast+
  with inst m' show ?thesis
    by simp
qed

subsection \<open>Serialization\<close>

text \<open>
  C8: the aggregate \<open>save(sink)\<close> is the composition of \<open>save(pos, sink)\<close> for
  \<open>pos = 0, \<dots>, size() - 1\<close> in ascending order, and \<open>load(source)\<close> the
  composition of \<open>load(pos, source)\<close> in the same order; nothing else is written or
  read. For a view over live variables, \<open>save\<close> appends exactly the values of the
  elements, in order, and \<open>load\<close> consumes exactly \<open>size()\<close> values: there is no
  length prefix or arity marker.
\<close>

theorem C8_aggregate_is_composition:
  "save t m sink = compose_save t [0..<size_te t] m sink \<and>
   load t source m = compose_load t [0..<size_te t] source m \<and>
   (view_ok v \<and> (\<forall>x\<in>set (xs_m v). ref x \<in> dom (cells m')) \<longrightarrow>
      save (as_tuple rtti mk v) m' sink' =
        Some (sink' @ map (\<lambda>x. the (cells m' (ref x))) (xs_m v)) \<and>
      (view_size v \<le> length source' \<longrightarrow>
         map_option fst (load (as_tuple rtti mk v) source' m') =
           Some (drop (view_size v) source')))"
proof (intro conjI impI)
  show "save t m sink = compose_save t [0..<size_te t] m sink"
    by (simp add: save_def save_from_eq)
  show "load t source m = compose_load t [0..<size_te t] source m"
    by (simp add: load_def load_from_eq)
next
  assume a: "view_ok v \<and> (\<forall>x\<in>set (xs_m v). ref x \<in> dom (cells m'))"
  from a have ok: "view_ok v" and live: "\<forall>x\<in>set (xs_m v). ref x \<in> dom (cells m')"
    by simp_all
  have sub: "set [0..<length (xs_m v)] \<subseteq> {..<length (xs_m v)}"
    by auto
  have "save (as_tuple rtti mk v) m' sink' =
          Some (sink' @ map (\<lambda>p. the (cells m' (ref (xs_m v ! p)))) [0..<length (xs_m v)])"
    using compose_save_view [OF ok live sub, of rtti mk sink']
    by (simp add: save_def save_from_eq view_size_def)
  also have "map (\<lambda>p. the (cells m' (ref (xs_m v ! p)))) [0..<length (xs_m v)] =
               map (\<lambda>x. the (cells m' (ref x))) (xs_m v)"
    by (simp add: map_equality_iff)
  finally show "save (as_tuple rtti mk v) m' sink' =
        Some (sink' @ map (\<lambda>x. the (cells m' (ref x))) (xs_m v))" .
  assume len: "view_size v \<le> length source'"
  obtain m'' where "compose_load (as_tuple rtti mk v) [0..<length (xs_m v)] source' m' =
      Some (drop (length [0..<length (xs_m v)]) source', m'')"
    using len compose_load_view [OF ok sub live, of source' rtti mk]
    by (auto simp: view_size_def)
  then show "map_option fst (load (as_tuple rtti mk v) source' m') =
           Some (drop (view_size v) source')"
    by (simp add: load_def load_from_eq view_size_def)
qed

theorem C8_aggregate_is_composition_witness:
  "save example_tuple example_memory [] = Some [IntV 42, StrV ''hi''] \<and>
   save example_tuple example_memory [] = compose_save example_tuple [0, 1] example_memory [] \<and>
   map_option fst (load example_tuple [IntV 1, StrV ''a'', IntV 9] example_memory) =
     Some [IntV 9] \<and>
   load example_tuple [IntV 1, StrV ''a'', IntV 9] example_memory =
     compose_load example_tuple [0, 1] [IntV 1, StrV ''a'', IntV 9] example_memory"
proof -
  have live: "\<forall>x\<in>set (xs_m (view_ctor example_vars)). ref x \<in> dom (cells example_memory)"
    by (simp add: example_view example_memory_def)
  have len: "view_size (view_ctor example_vars) \<le> length [IntV 1, StrV ''a'', IntV 9]"
    by (simp add: example_view view_size_def)
  note inst = C8_aggregate_is_composition [where t = example_tuple and m = example_memory
      and sink = "[]" and source = "[IntV 1, StrV ''a'', IntV 9]"
      and v = "view_ctor example_vars" and m' = example_memory and sink' = "[]"
      and source' = "[IntV 1, StrV ''a'', IntV 9]" and rtti = "\<lambda>T. T" and mk = example_token,
      folded example_tuple_def]
  have upt: "[0..<size_te example_tuple] = [0, 1]"
    by (simp add: example_tuple_size upt_rec)
  have vals: "map (\<lambda>x. the (cells example_memory (ref x))) (xs_m (view_ctor example_vars)) =
      [IntV 42, StrV ''hi'']"
    by (simp add: example_view example_memory_def)
  have drop: "drop (view_size (view_ctor example_vars)) [IntV 1, StrV ''a'', IntV 9] = [IntV 9]"
    by (simp add: example_view view_size_def)
  have A: "save example_tuple example_memory [] =
      compose_save example_tuple [0, 1] example_memory []"
    using inst [THEN conjunct1] unfolding upt .
  have B: "load example_tuple [IntV 1, StrV ''a'', IntV 9] example_memory =
     compose_load example_tuple [0, 1] [IntV 1, StrV ''a'', IntV 9] example_memory"
    using inst [THEN conjunct2, THEN conjunct1] unfolding upt .
  have C: "save example_tuple example_memory [] = Some [IntV 42, StrV ''hi'']"
    using inst [THEN conjunct2, THEN conjunct2] live view_ok_ctor [of example_vars]
    unfolding vals by simp
  have D: "map_option fst (load example_tuple [IntV 1, StrV ''a'', IntV 9] example_memory) =
     Some [IntV 9]"
    using inst [THEN conjunct2, THEN conjunct2] live view_ok_ctor [of example_vars] len
    unfolding drop by simp
  from A B C D show ?thesis
    by blast
qed

end
